theory Spec2Isabelle
  imports Main
begin

section \<open>Values\<close>

text \<open>
  The mapping file \<^verbatim>\<open>src/mappings/rocketMinipoolManager.ts\<close> keeps two kinds of
  entity, \<^verbatim>\<open>Minipool\<close> and \<^verbatim>\<open>Node\<close>, in the entity store of the indexer and
  updates them from three handlers. An \<^verbatim>\<open>Address\<close> is represented by its hexadecimal
  string, so that \<^verbatim>\<open>toHexString\<close> and \<^verbatim>\<open>Address.fromString\<close> are the two directions
  of one representation. A \<^verbatim>\<open>BigInt\<close> is an unbounded integer.
\<close>

type_synonym Address = string

type_synonym BigInt = int

definition toHexString :: "Address \<Rightarrow> string" where
  "toHexString a = a"

definition Address_fromString :: "string \<Rightarrow> Address" where
  "Address_fromString x = x"

text \<open>
  \<^verbatim>\<open>BigInt.div\<close> rounds towards zero. The mapping calls it in one place only, behind the
  test that the divisor is greater than zero.
\<close>

definition BigInt_div :: "BigInt \<Rightarrow> BigInt \<Rightarrow> BigInt" where
  "BigInt_div a b = sgn a * sgn b * (\<bar>a\<bar> div \<bar>b\<bar>)"

text \<open>A contract call that reverts ends the handler; the model returns it as a value.\<close>

datatype error = CallReverted string

section \<open>Entities and the store\<close>

record Minipool =
  mp_id :: string
  mp_node :: "string option"
  fee :: BigInt
  destroyedBlockTime :: BigInt
  finalizedBlockTime :: BigInt

record Node =
  node_id :: string
  minipoolIds :: "string list option"
  totalFinalizedMinipools :: BigInt
  withdrawableMinipools :: BigInt
  effectiveRPLStaked :: BigInt
  minimumEffectiveRPL :: BigInt
  maximumEffectiveRPL :: BigInt
  averageFeeForActiveMinipools :: BigInt

text \<open>
  The store holds the saved entities by id, and the addresses handed to
  \<^verbatim>\<open>rocketMinipoolDelegate.create\<close> (the data source template), in the order of the calls.
\<close>

record store =
  minipools :: "string \<rightharpoonup> Minipool"
  nodes :: "string \<rightharpoonup> Node"
  templates :: "Address list"

definition Minipool_load :: "store \<Rightarrow> string \<Rightarrow> Minipool option" where
  "Minipool_load s k = minipools s k"

definition Node_load :: "store \<Rightarrow> string \<Rightarrow> Node option" where
  "Node_load s k = nodes s k"

definition Minipool_save :: "Minipool \<Rightarrow> store \<Rightarrow> store" where
  "Minipool_save m s = s\<lparr>minipools := (minipools s)(mp_id m \<mapsto> m)\<rparr>"

definition Node_save :: "Node \<Rightarrow> store \<Rightarrow> store" where
  "Node_save n s = s\<lparr>nodes := (nodes s)(node_id n \<mapsto> n)\<rparr>"

definition rocketMinipoolDelegate_create :: "Address \<Rightarrow> store \<Rightarrow> store" where
  "rocketMinipoolDelegate_create a s = s\<lparr>templates := templates s @ [a]\<rparr>"

section \<open>The chain and the generated code a handler is given\<close>

text \<open>
  The contract bindings, the event classes and the entity factory are generated or live in
  other files. They are parameters here. A binding is the result of \<^verbatim>\<open>bind\<close> at the
  address constant, \<open>None\<close> for \<^verbatim>\<open>null\<close>; each read gives a value or reverts.
  \<^verbatim>\<open>createMinipool\<close> gives the new entity, \<open>None\<close> for \<^verbatim>\<open>null\<close>.
\<close>

record rocketNetworkFees =
  getNodeFee :: "error + BigInt"

record rocketNodeStaking =
  getNodeEffectiveRPLStake :: "Address \<Rightarrow> error + BigInt"
  getNodeMinimumRPLStake :: "Address \<Rightarrow> error + BigInt"
  getNodeMaximumRPLStake :: "Address \<Rightarrow> error + BigInt"

record env =
  rocketNetworkFees_bind :: "rocketNetworkFees option"
  rocketNodeStaking_bind :: "rocketNodeStaking option"
  createMinipool :: "string \<Rightarrow> Node \<Rightarrow> BigInt \<Rightarrow> Minipool option"

text \<open>Every field a handler tests against \<^verbatim>\<open>null\<close> is an option.\<close>

record event_params =
  param_node :: "Address option"
  param_minipool :: "Address option"

record block =
  timestamp :: BigInt

record MinipoolCreated =
  created_params :: "event_params option"

record MinipoolDestroyed =
  destroyed_params :: "event_params option"
  destroyed_block :: "block option"

record IncrementNodeFinalisedMinipoolCountCall =
  call_block :: "block option"
  call_from :: "Address option"

section \<open>The helper functions\<close>

definition getNewMinipoolFee :: "env \<Rightarrow> error + BigInt" where
  "getNewMinipoolFee e =
     (case rocketNetworkFees_bind e of
        None \<Rightarrow> Inr 0
      | Some networkFeesContract \<Rightarrow> getNodeFee networkFeesContract)"

text \<open>
  The three reads run in order and each assigns its field at once; a read that reverts
  ends the handler, and the node object assigned so far is dropped with it.
\<close>

definition setEffectiveRPLStaked :: "env \<Rightarrow> Node \<Rightarrow> error + Node" where
  "setEffectiveRPLStaked e node =
     (case rocketNodeStaking_bind e of
        None \<Rightarrow> Inr node
      | Some rocketNodeStakingContract \<Rightarrow>
          let nodeAddress = Address_fromString (node_id node) in
          (case getNodeEffectiveRPLStake rocketNodeStakingContract nodeAddress of
             Inl err \<Rightarrow> Inl err
           | Inr v1 \<Rightarrow>
              let node = node\<lparr>effectiveRPLStaked := v1\<rparr> in
              (case getNodeMinimumRPLStake rocketNodeStakingContract nodeAddress of
                 Inl err \<Rightarrow> Inl err
               | Inr v2 \<Rightarrow>
                  let node = node\<lparr>minimumEffectiveRPL := v2\<rparr> in
                  (case getNodeMaximumRPLStake rocketNodeStakingContract nodeAddress of
                     Inl err \<Rightarrow> Inl err
                   | Inr v3 \<Rightarrow> Inr (node\<lparr>maximumEffectiveRPL := v3\<rparr>)))))"

text \<open>
  The loop of \<^verbatim>\<open>getAverageFeeForActiveMinipools\<close> over the ids, with its two
  accumulators: the total fee and the number of active minipools. The parameter is declared
  \<^verbatim>\<open>string[]\<close>, so an element is a string; the list itself is tested against
  \<^verbatim>\<open>null\<close> and is an option.
\<close>

fun averageLoop :: "store \<Rightarrow> string list \<Rightarrow> BigInt \<times> BigInt \<Rightarrow> BigInt \<times> BigInt" where
  "averageLoop s [] (totalFee, totalActive) = (totalFee, totalActive)"
| "averageLoop s (minipoolId # rest) (totalFee, totalActive) =
     (case Minipool_load s minipoolId of
        None \<Rightarrow> averageLoop s rest (totalFee, totalActive)
      | Some minipool \<Rightarrow>
          if finalizedBlockTime minipool \<noteq> 0 \<or> destroyedBlockTime minipool \<noteq> 0
          then averageLoop s rest (totalFee, totalActive)
          else averageLoop s rest (totalFee + fee minipool, totalActive + 1))"

definition getAverageFeeForActiveMinipools :: "store \<Rightarrow> string list option \<Rightarrow> BigInt" where
  "getAverageFeeForActiveMinipools s idList =
     (case idList of
        None \<Rightarrow> 0
      | Some ids \<Rightarrow>
          if length ids = 0 then 0
          else
            (case averageLoop s ids (0, 0) of
               (totalMinipoolFeeForActiveMinipools, totalActiveMinipools) \<Rightarrow>
                 if totalActiveMinipools > 0 \<and> totalMinipoolFeeForActiveMinipools > 0
                 then BigInt_div totalMinipoolFeeForActiveMinipools totalActiveMinipools
                 else 0))"

section \<open>The handlers\<close>

text \<open>
  A handler takes the chain as it is when the event is processed, the event and the store,
  and gives the store it leaves behind and the error that ended it, if one did.
\<close>

definition handleMinipoolCreated ::
  "env \<Rightarrow> MinipoolCreated option \<Rightarrow> store \<Rightarrow> store \<times> error option" where
  "handleMinipoolCreated e event s =
     (case event of None \<Rightarrow> (s, None) | Some ev \<Rightarrow>
     (case created_params ev of None \<Rightarrow> (s, None) | Some params \<Rightarrow>
     (case param_node params of None \<Rightarrow> (s, None) | Some n \<Rightarrow>
     (case param_minipool params of None \<Rightarrow> (s, None) | Some m \<Rightarrow>
     (case Minipool_load s (toHexString m) of Some existing \<Rightarrow> (s, None) | None \<Rightarrow>
     (case Node_load s (toHexString n) of None \<Rightarrow> (s, None) | Some node \<Rightarrow>
     (case getNewMinipoolFee e of Inl err \<Rightarrow> (s, Some err) | Inr newFee \<Rightarrow>
     (case createMinipool e (toHexString m) node newFee of None \<Rightarrow> (s, None) | Some minipool \<Rightarrow>
        (let nodeMinipools = (case minipoolIds node of None \<Rightarrow> [mp_id minipool] | Some ids \<Rightarrow> ids);
             nodeMinipools = (if mp_id minipool \<notin> set nodeMinipools
                              then nodeMinipools @ [mp_id minipool] else nodeMinipools);
             node = node\<lparr>minipoolIds := Some nodeMinipools\<rparr>;
             s = Minipool_save minipool s
         in (case setEffectiveRPLStaked e node of Inl err \<Rightarrow> (s, Some err) | Inr node \<Rightarrow>
              (let node = node\<lparr>averageFeeForActiveMinipools :=
                                 getAverageFeeForActiveMinipools s (Some nodeMinipools)\<rparr>;
                   s = Node_save node s
               in (rocketMinipoolDelegate_create (Address_fromString (mp_id minipool)) s,
                   None))))))))))))"

definition handleMinipoolDestroyed ::
  "env \<Rightarrow> MinipoolDestroyed option \<Rightarrow> store \<Rightarrow> store \<times> error option" where
  "handleMinipoolDestroyed e event s =
     (case event of None \<Rightarrow> (s, None) | Some ev \<Rightarrow>
     (case destroyed_params ev of None \<Rightarrow> (s, None) | Some params \<Rightarrow>
     (case param_node params of None \<Rightarrow> (s, None) | Some n \<Rightarrow>
     (case param_minipool params of None \<Rightarrow> (s, None) | Some m \<Rightarrow>
     (case destroyed_block ev of None \<Rightarrow> (s, None) | Some blk \<Rightarrow>
     (case Minipool_load s (toHexString m) of None \<Rightarrow> (s, None) | Some minipool \<Rightarrow>
     (case Node_load s (toHexString n) of None \<Rightarrow> (s, None) | Some node \<Rightarrow>
        (let ids = minipoolIds node;
             minipool = minipool\<lparr>destroyedBlockTime := timestamp blk\<rparr>;
             s = Minipool_save minipool s
         in (case setEffectiveRPLStaked e node of Inl err \<Rightarrow> (s, Some err) | Inr node \<Rightarrow>
              (let node = (case ids of
                             None \<Rightarrow> node
                           | Some xs \<Rightarrow> node\<lparr>averageFeeForActiveMinipools :=
                                                getAverageFeeForActiveMinipools s (Some xs)\<rparr>)
               in (Node_save node s, None)))))))))))"

definition handleIncrementNodeFinalisedMinipoolCount ::
  "env \<Rightarrow> IncrementNodeFinalisedMinipoolCountCall option \<Rightarrow> store \<Rightarrow> store \<times> error option" where
  "handleIncrementNodeFinalisedMinipoolCount e call s =
     (case call of None \<Rightarrow> (s, None) | Some c \<Rightarrow>
     (case call_block c of None \<Rightarrow> (s, None) | Some blk \<Rightarrow>
     (case call_from c of None \<Rightarrow> (s, None) | Some sender \<Rightarrow>
     (case Minipool_load s (toHexString sender) of None \<Rightarrow> (s, None) | Some minipool \<Rightarrow>
     (case mp_node minipool of None \<Rightarrow> (s, None) | Some nodeId \<Rightarrow>
     (case Node_load s nodeId of None \<Rightarrow> (s, None) | Some node \<Rightarrow>
        (let ids = minipoolIds node;
             minipool = minipool\<lparr>finalizedBlockTime := timestamp blk\<rparr>;
             s = Minipool_save minipool s;
             node = node\<lparr>totalFinalizedMinipools := totalFinalizedMinipools node + 1\<rparr>;
             node = node\<lparr>withdrawableMinipools := totalFinalizedMinipools node - 1\<rparr>;
             node = (if withdrawableMinipools node < 0
                     then node\<lparr>withdrawableMinipools := 0\<rparr> else node)
         in (case setEffectiveRPLStaked e node of Inl err \<Rightarrow> (s, Some err) | Inr node \<Rightarrow>
              (let node = (case ids of
                             None \<Rightarrow> node
                           | Some xs \<Rightarrow> node\<lparr>averageFeeForActiveMinipools :=
                                                getAverageFeeForActiveMinipools s (Some xs)\<rparr>)
               in (Node_save node s, None))))))))))"

section \<open>The average as the specification words it\<close>

text \<open>
  The specification: load each id; keep the minipools that load and have both block times
  zero; sum their fees and count them; the result is the quotient when the count and the
  sum are above zero, and zero otherwise.
\<close>

definition activeMinipools :: "store \<Rightarrow> string list \<Rightarrow> Minipool list" where
  "activeMinipools s ids =
     filter (\<lambda>m. finalizedBlockTime m = 0 \<and> destroyedBlockTime m = 0)
       (List.map_filter (Minipool_load s) ids)"

definition specAverageFee :: "store \<Rightarrow> string list option \<Rightarrow> int" where
  "specAverageFee s idList =
     (case idList of
        None \<Rightarrow> 0
      | Some ids \<Rightarrow>
          let total = sum_list (map fee (activeMinipools s ids));
              n = int (length (activeMinipools s ids))
          in if n > 0 \<and> total > 0 then total div n else 0)"

section \<open>What the stake reads return\<close>

text \<open>
  The three reads of the staking contract for one address, in the order of
  \<^verbatim>\<open>setEffectiveRPLStaked\<close>: nothing when the binding is null, the first revert when
  one of them reverts, the three values otherwise.
\<close>

definition stakeReads :: "env \<Rightarrow> Address \<Rightarrow> (error + BigInt \<times> BigInt \<times> BigInt) option" where
  "stakeReads e a =
     (case rocketNodeStaking_bind e of
        None \<Rightarrow> None
      | Some c \<Rightarrow>
          Some (case getNodeEffectiveRPLStake c a of
                  Inl err \<Rightarrow> Inl err
                | Inr v1 \<Rightarrow>
                    (case getNodeMinimumRPLStake c a of
                       Inl err \<Rightarrow> Inl err
                     | Inr v2 \<Rightarrow>
                         (case getNodeMaximumRPLStake c a of
                            Inl err \<Rightarrow> Inl err
                          | Inr v3 \<Rightarrow> Inr (v1, v2, v3)))))"

definition refreshAborts :: "env \<Rightarrow> Address \<Rightarrow> bool" where
  "refreshAborts e a = (case stakeReads e a of Some (Inl err) \<Rightarrow> True | _ \<Rightarrow> False)"

text \<open>Lines 123 to 127 of the finalization handler, and the guarded recomputation.\<close>

definition finalisedCounters :: "Node \<Rightarrow> Node" where
  "finalisedCounters nd =
     (let node = nd\<lparr>totalFinalizedMinipools := totalFinalizedMinipools nd + 1\<rparr>;
          node = node\<lparr>withdrawableMinipools := totalFinalizedMinipools node - 1\<rparr>
      in if withdrawableMinipools node < 0 then node\<lparr>withdrawableMinipools := 0\<rparr> else node)"

definition recomputed :: "store \<Rightarrow> string list option \<Rightarrow> Node \<Rightarrow> Node" where
  "recomputed s ids nd =
     (case ids of
        None \<Rightarrow> nd
      | Some xs \<Rightarrow> nd\<lparr>averageFeeForActiveMinipools := getAverageFeeForActiveMinipools s (Some xs)\<rparr>)"

text \<open>Lines 43 to 45 of the creation handler: the id list with the new id in it.\<close>

definition appendedIds :: "string list option \<Rightarrow> string \<Rightarrow> string list" where
  "appendedIds ids k =
     (let nodeMinipools = (case ids of None \<Rightarrow> [k] | Some xs \<Rightarrow> xs)
      in if k \<notin> set nodeMinipools then nodeMinipools @ [k] else nodeMinipools)"

section \<open>Sequences of handler invocations\<close>

text \<open>
  The indexer runs one handler at a time, each to its end, on the store the one before left.
  Every invocation comes with the chain as it is at that moment.
\<close>

datatype invocation =
    Created env "MinipoolCreated option"
  | Destroyed env "MinipoolDestroyed option"
  | Finalised env "IncrementNodeFinalisedMinipoolCountCall option"

fun dispatch :: "invocation \<Rightarrow> store \<Rightarrow> store \<times> error option" where
  "dispatch (Created e ev) s = handleMinipoolCreated e ev s"
| "dispatch (Destroyed e ev) s = handleMinipoolDestroyed e ev s"
| "dispatch (Finalised e c) s = handleIncrementNodeFinalisedMinipoolCount e c s"

fun run :: "invocation list \<Rightarrow> store \<Rightarrow> store" where
  "run [] s = s"
| "run (i # rest) s = run rest (fst (dispatch i s))"

text \<open>Stake refreshes of one node object, one after the other, each on its own chain state.\<close>

fun refreshAll :: "env list \<Rightarrow> Node \<Rightarrow> error + Node" where
  "refreshAll [] nd = Inr nd"
| "refreshAll (e # rest) nd =
     (case setEffectiveRPLStaked e nd of Inl err \<Rightarrow> Inl err | Inr nd' \<Rightarrow> refreshAll rest nd')"

text \<open>The store keeps an entity under its own id: \<^verbatim>\<open>save\<close> writes it there.\<close>

definition keyedNodes :: "store \<Rightarrow> bool" where
  "keyedNodes s = (\<forall>k nd. nodes s k = Some nd \<longrightarrow> node_id nd = k)"

definition keyedMinipools :: "store \<Rightarrow> bool" where
  "keyedMinipools s = (\<forall>k mp. minipools s k = Some mp \<longrightarrow> mp_id mp = k)"

section \<open>What a handler has loaded when its checks have passed\<close>

text \<open>
  The checks and loads at the head of each handler, on their own: nothing when the handler
  returns early, the loaded entities otherwise (for the creation handler the new minipool
  and the node, or the revert of the fee read).
\<close>

definition createdLoads ::
  "env \<Rightarrow> MinipoolCreated option \<Rightarrow> store \<Rightarrow> (error + Minipool \<times> Node) option" where
  "createdLoads e event s =
     (case event of None \<Rightarrow> None | Some ev \<Rightarrow>
     (case created_params ev of None \<Rightarrow> None | Some params \<Rightarrow>
     (case param_node params of None \<Rightarrow> None | Some n \<Rightarrow>
     (case param_minipool params of None \<Rightarrow> None | Some m \<Rightarrow>
     (case Minipool_load s (toHexString m) of Some existing \<Rightarrow> None | None \<Rightarrow>
     (case Node_load s (toHexString n) of None \<Rightarrow> None | Some node \<Rightarrow>
     (case getNewMinipoolFee e of Inl err \<Rightarrow> Some (Inl err) | Inr newFee \<Rightarrow>
     (case createMinipool e (toHexString m) node newFee of
        None \<Rightarrow> None
      | Some minipool \<Rightarrow> Some (Inr (minipool, node))))))))))"

definition destroyedLoads ::
  "MinipoolDestroyed option \<Rightarrow> store \<Rightarrow> (Minipool \<times> Node \<times> BigInt) option" where
  "destroyedLoads event s =
     (case event of None \<Rightarrow> None | Some ev \<Rightarrow>
     (case destroyed_params ev of None \<Rightarrow> None | Some params \<Rightarrow>
     (case param_node params of None \<Rightarrow> None | Some n \<Rightarrow>
     (case param_minipool params of None \<Rightarrow> None | Some m \<Rightarrow>
     (case destroyed_block ev of None \<Rightarrow> None | Some blk \<Rightarrow>
     (case Minipool_load s (toHexString m) of None \<Rightarrow> None | Some minipool \<Rightarrow>
     (case Node_load s (toHexString n) of
        None \<Rightarrow> None
      | Some node \<Rightarrow> Some (minipool, node, timestamp blk))))))))"

definition finalisedLoads ::
  "IncrementNodeFinalisedMinipoolCountCall option \<Rightarrow> store \<Rightarrow> (Minipool \<times> Node \<times> BigInt) option" where
  "finalisedLoads call s =
     (case call of None \<Rightarrow> None | Some c \<Rightarrow>
     (case call_block c of None \<Rightarrow> None | Some blk \<Rightarrow>
     (case call_from c of None \<Rightarrow> None | Some sender \<Rightarrow>
     (case Minipool_load s (toHexString sender) of None \<Rightarrow> None | Some minipool \<Rightarrow>
     (case mp_node minipool of None \<Rightarrow> None | Some nodeId \<Rightarrow>
     (case Node_load s nodeId of
        None \<Rightarrow> None
      | Some node \<Rightarrow> Some (minipool, node, timestamp blk)))))))"

text \<open>The node stored under a key has a withdrawable count that is not negative.\<close>

definition nodeOk :: "string \<Rightarrow> store \<Rightarrow> bool" where
  "nodeOk k s = (case nodes s k of None \<Rightarrow> False | Some nd \<Rightarrow> 0 \<le> withdrawableMinipools nd)"

section \<open>Example values\<close>

definition exA :: Minipool where
  "exA = \<lparr>mp_id = ''0xa'', mp_node = Some ''0xn'', fee = 10,
           destroyedBlockTime = 0, finalizedBlockTime = 0\<rparr>"

definition exB :: Minipool where
  "exB = \<lparr>mp_id = ''0xb'', mp_node = Some ''0xn'', fee = 20,
           destroyedBlockTime = 0, finalizedBlockTime = 0\<rparr>"

definition exC :: Minipool where
  "exC = \<lparr>mp_id = ''0xc'', mp_node = Some ''0xn'', fee = 31,
           destroyedBlockTime = 0, finalizedBlockTime = 0\<rparr>"

definition exNode :: Node where
  "exNode = \<lparr>node_id = ''0xn'', minipoolIds = Some [''0xa'', ''0xb'', ''0xc''],
              totalFinalizedMinipools = 0, withdrawableMinipools = 0,
              effectiveRPLStaked = 1, minimumEffectiveRPL = 2, maximumEffectiveRPL = 3,
              averageFeeForActiveMinipools = 20\<rparr>"

definition exStore :: store where
  "exStore = \<lparr>minipools = [''0xa'' \<mapsto> exA, ''0xb'' \<mapsto> exB, ''0xc'' \<mapsto> exC],
               nodes = [''0xn'' \<mapsto> exNode], templates = []\<rparr>"

definition exStaking :: rocketNodeStaking where
  "exStaking = \<lparr>getNodeEffectiveRPLStake = (\<lambda>a. Inr 100),
                 getNodeMinimumRPLStake = (\<lambda>a. Inr 50),
                 getNodeMaximumRPLStake = (\<lambda>a. Inr 150)\<rparr>"

text \<open>
  Modelled from the spec: \<^verbatim>\<open>rocketPoolEntityFactory.createMinipool\<close> of
  \<^verbatim>\<open>src/entityfactory\<close>, a file apart from the mapping. The specification has the new
  entity carry the fee, the link to its owner and zero for both block times. The handlers
  take the factory as a parameter; this one is the value the examples give them.
\<close>

definition exCreateMinipool :: "string \<Rightarrow> Node \<Rightarrow> BigInt \<Rightarrow> Minipool option" where
  "exCreateMinipool k nd f =
     Some \<lparr>mp_id = k, mp_node = Some (node_id nd), fee = f,
           destroyedBlockTime = 0, finalizedBlockTime = 0\<rparr>"

definition exEnv :: env where
  "exEnv = \<lparr>rocketNetworkFees_bind = Some \<lparr>getNodeFee = Inr 15\<rparr>,
             rocketNodeStaking_bind = Some exStaking,
             createMinipool = exCreateMinipool\<rparr>"

definition exFailingEnv :: env where
  "exFailingEnv =
     exEnv\<lparr>rocketNodeStaking_bind :=
             Some (exStaking\<lparr>getNodeMinimumRPLStake :=
                                (\<lambda>a. Inl (CallReverted ''getNodeMinimumRPLStake''))\<rparr>)\<rparr>"

definition exFeeFailingEnv :: env where
  "exFeeFailingEnv =
     exEnv\<lparr>rocketNetworkFees_bind := Some \<lparr>getNodeFee = Inl (CallReverted ''getNodeFee'')\<rparr>\<rparr>"

definition exInvocations :: "invocation list" where
  "exInvocations =
     [Finalised exEnv (Some \<lparr>call_block = Some \<lparr>timestamp = 1700\<rparr>, call_from = Some ''0xb''\<rparr>),
      Destroyed exFailingEnv
        (Some \<lparr>destroyed_params = Some \<lparr>param_node = Some ''0xn'', param_minipool = Some ''0xc''\<rparr>,
               destroyed_block = Some \<lparr>timestamp = 1710\<rparr>\<rparr>),
      Finalised exEnv (Some \<lparr>call_block = Some \<lparr>timestamp = 1720\<rparr>, call_from = Some ''0xa''\<rparr>),
      Created exEnv
        (Some \<lparr>created_params = Some \<lparr>param_node = Some ''0xn'', param_minipool = Some ''0xd''\<rparr>\<rparr>)]"

definition exEarlierEnv :: env where
  "exEarlierEnv =
     exEnv\<lparr>rocketNodeStaking_bind :=
             Some \<lparr>getNodeEffectiveRPLStake = (\<lambda>a. Inr 7),
                   getNodeMinimumRPLStake = (\<lambda>a. Inr 8),
                   getNodeMaximumRPLStake = (\<lambda>a. Inr 9)\<rparr>\<rparr>"

definition exD :: Minipool where
  "exD = \<lparr>mp_id = ''0xd'', mp_node = Some ''0xn'', fee = 15,
           destroyedBlockTime = 0, finalizedBlockTime = 0\<rparr>"

definition exNullStakingEnv :: env where
  "exNullStakingEnv = exEnv\<lparr>rocketNodeStaking_bind := None\<rparr>"

definition exNullFeeFailingEnv :: env where
  "exNullFeeFailingEnv = exFailingEnv\<lparr>rocketNetworkFees_bind := None\<rparr>"



section \<open>Properties of the average\<close>

lemma averageLoop_accumulates:
  "averageLoop s ids (t, a) =
     (t + sum_list (map fee (activeMinipools s ids)), a + int (length (activeMinipools s ids)))"
proof (induction ids arbitrary: t a)
  case Nil
  show ?case by (simp add: activeMinipools_def)
next
  case (Cons k ks)
  show ?case
  proof (cases "Minipool_load s k")
    case None
    then show ?thesis
      using Cons.IH [of t a] by (simp add: activeMinipools_def)
  next
    case (Some m)
    show ?thesis
    proof (cases "finalizedBlockTime m = 0 \<and> destroyedBlockTime m = 0")
      case True
      then show ?thesis
        using Some Cons.IH [of "t + fee m" "a + 1"]
        by (simp add: activeMinipools_def)
    next
      case False
      then show ?thesis
        using Some Cons.IH [of t a]
        by (auto simp add: activeMinipools_def)
    qed
  qed
qed

lemma BigInt_div_pos: "0 < a \<Longrightarrow> 0 < b \<Longrightarrow> BigInt_div a b = a div b"
  by (simp add: BigInt_div_def)

text \<open>
  C1. For every list of minipool ids, \<^verbatim>\<open>getAverageFeeForActiveMinipools\<close> is the
  average as the specification words it: over the ids whose minipool loads and has both
  block times zero, the quotient of the sum of the fees by their number when both are above
  zero (where the integer quotient rounds down, which is also towards zero), and zero in
  every other case: the null list, the empty list, no active minipool, a sum not above zero.
\<close>

theorem getAverageFeeForActiveMinipools_spec:
  "getAverageFeeForActiveMinipools s idList = specAverageFee s idList"
proof (cases idList)
  case None
  then show ?thesis
    by (simp add: getAverageFeeForActiveMinipools_def specAverageFee_def)
next
  case (Some ids)
  show ?thesis
  proof (cases "ids = []")
    case True
    then show ?thesis
      using Some
      by (simp add: getAverageFeeForActiveMinipools_def specAverageFee_def activeMinipools_def)
  next
    case False
    then show ?thesis
      using Some averageLoop_accumulates [of s ids 0 0]
      by (simp add: getAverageFeeForActiveMinipools_def specAverageFee_def Let_def BigInt_div_pos)
  qed
qed

text \<open>The three fees 10, 20 and 31 average to 20; the fourth id does not load.\<close>

theorem getAverageFeeForActiveMinipools_spec_witness:
  "getAverageFeeForActiveMinipools exStore (Some [''0xa'', ''0xb'', ''0xc'', ''0xd'']) = 20"
  using getAverageFeeForActiveMinipools_spec [of exStore "Some [''0xa'', ''0xb'', ''0xc'', ''0xd'']"]
  by (simp add: specAverageFee_def activeMinipools_def Minipool_load_def exStore_def
      exA_def exB_def exC_def)

section \<open>The stake refresh\<close>

lemma setEffectiveRPLStaked_reads:
  "setEffectiveRPLStaked e nd =
     (case stakeReads e (node_id nd) of
        None \<Rightarrow> Inr nd
      | Some (Inl err) \<Rightarrow> Inl err
      | Some (Inr (v1, v2, v3)) \<Rightarrow>
          Inr (nd\<lparr>effectiveRPLStaked := v1, minimumEffectiveRPL := v2, maximumEffectiveRPL := v3\<rparr>))"
  by (simp add: setEffectiveRPLStaked_def stakeReads_def Address_fromString_def
      split: option.splits sum.splits)

lemma refresh_frame:
  assumes "setEffectiveRPLStaked e nd = Inr nd'"
  shows "node_id nd' = node_id nd
           \<and> minipoolIds nd' = minipoolIds nd
           \<and> totalFinalizedMinipools nd' = totalFinalizedMinipools nd
           \<and> withdrawableMinipools nd' = withdrawableMinipools nd
           \<and> averageFeeForActiveMinipools nd' = averageFeeForActiveMinipools nd"
  using assms
  by (auto simp add: setEffectiveRPLStaked_reads split: option.splits sum.splits)

lemma refresh_completes:
  assumes "\<not> refreshAborts e (node_id nd)"
  shows "\<exists>nd'. setEffectiveRPLStaked e nd = Inr nd'"
  using assms
  by (auto simp add: setEffectiveRPLStaked_reads refreshAborts_def split: option.splits sum.splits)

lemma exEnv_completes: "\<not> refreshAborts exEnv a"
  by (simp add: refreshAborts_def stakeReads_def exEnv_def exStaking_def)

text \<open>The two guards on a null binding: the fee is zero, the refresh does nothing.\<close>

lemma null_fee_binding:
  "rocketNetworkFees_bind e = None \<Longrightarrow> getNewMinipoolFee e = Inr 0"
  by (simp add: getNewMinipoolFee_def)

lemma null_staking_binding:
  "rocketNodeStaking_bind e = None \<Longrightarrow> setEffectiveRPLStaked e nd = Inr nd"
  by (simp add: setEffectiveRPLStaked_def)

section \<open>The handlers after their checks\<close>

lemma created_by_loads:
  "handleMinipoolCreated e ev s =
     (case createdLoads e ev s of
        None \<Rightarrow> (s, None)
      | Some (Inl err) \<Rightarrow> (s, Some err)
      | Some (Inr (mp, nd)) \<Rightarrow>
          (case setEffectiveRPLStaked e
                  (nd\<lparr>minipoolIds := Some (appendedIds (minipoolIds nd) (mp_id mp))\<rparr>) of
             Inl err \<Rightarrow> (Minipool_save mp s, Some err)
           | Inr nd' \<Rightarrow>
               (rocketMinipoolDelegate_create (Address_fromString (mp_id mp))
                  (Node_save
                     (recomputed (Minipool_save mp s)
                        (Some (appendedIds (minipoolIds nd) (mp_id mp))) nd')
                     (Minipool_save mp s)), None)))"
  by (simp add: handleMinipoolCreated_def createdLoads_def appendedIds_def recomputed_def Let_def
      split: option.splits sum.splits)

lemma destroyed_by_loads:
  "handleMinipoolDestroyed e ev s =
     (case destroyedLoads ev s of
        None \<Rightarrow> (s, None)
      | Some (mp, nd, t) \<Rightarrow>
          (case setEffectiveRPLStaked e nd of
             Inl err \<Rightarrow> (Minipool_save (mp\<lparr>destroyedBlockTime := t\<rparr>) s, Some err)
           | Inr nd' \<Rightarrow>
               (Node_save
                  (recomputed (Minipool_save (mp\<lparr>destroyedBlockTime := t\<rparr>) s) (minipoolIds nd) nd')
                  (Minipool_save (mp\<lparr>destroyedBlockTime := t\<rparr>) s), None)))"
  by (simp add: handleMinipoolDestroyed_def destroyedLoads_def recomputed_def Let_def
      split: option.splits sum.splits)

lemma finalised_by_loads:
  "handleIncrementNodeFinalisedMinipoolCount e c s =
     (case finalisedLoads c s of
        None \<Rightarrow> (s, None)
      | Some (mp, nd, t) \<Rightarrow>
          (case setEffectiveRPLStaked e (finalisedCounters nd) of
             Inl err \<Rightarrow> (Minipool_save (mp\<lparr>finalizedBlockTime := t\<rparr>) s, Some err)
           | Inr nd' \<Rightarrow>
               (Node_save
                  (recomputed (Minipool_save (mp\<lparr>finalizedBlockTime := t\<rparr>) s) (minipoolIds nd) nd')
                  (Minipool_save (mp\<lparr>finalizedBlockTime := t\<rparr>) s), None)))"
  by (simp add: handleIncrementNodeFinalisedMinipoolCount_def finalisedLoads_def recomputed_def
      finalisedCounters_def Let_def split: option.splits sum.splits)

lemma createdLoads_node:
  "createdLoads e ev s = Some (Inr (mp, nd)) \<Longrightarrow> \<exists>k. nodes s k = Some nd"
  by (auto simp add: createdLoads_def Node_load_def split: option.splits sum.splits)

lemma destroyedLoads_entities:
  "destroyedLoads ev s = Some (mp, nd, t) \<Longrightarrow>
     (\<exists>k. nodes s k = Some nd) \<and> (\<exists>k. minipools s k = Some mp)"
  by (auto simp add: destroyedLoads_def Node_load_def Minipool_load_def split: option.splits)

lemma finalisedLoads_entities:
  "finalisedLoads c s = Some (mp, nd, t) \<Longrightarrow>
     (\<exists>k. nodes s k = Some nd) \<and> (\<exists>k. minipools s k = Some mp)"
  by (auto simp add: finalisedLoads_def Node_load_def Minipool_load_def split: option.splits)

lemma finalisedCounters_fields:
  "node_id (finalisedCounters nd) = node_id nd"
  "minipoolIds (finalisedCounters nd) = minipoolIds nd"
  "totalFinalizedMinipools (finalisedCounters nd) = totalFinalizedMinipools nd + 1"
  "withdrawableMinipools (finalisedCounters nd) = max 0 (totalFinalizedMinipools nd)"
  by (simp_all add: finalisedCounters_def Let_def)

lemma recomputed_fields:
  "node_id (recomputed s ids nd) = node_id nd"
  "minipoolIds (recomputed s ids nd) = minipoolIds nd"
  "totalFinalizedMinipools (recomputed s ids nd) = totalFinalizedMinipools nd"
  "withdrawableMinipools (recomputed s ids nd) = withdrawableMinipools nd"
  by (simp_all add: recomputed_def split: option.splits)

section \<open>The creation handler\<close>

text \<open>
  C7. A creation event whose node is not in the store changes nothing and raises nothing:
  the handler returns the store it was given, with no minipool, no node and no template
  added, and no error, whatever the chain would have answered.
\<close>

theorem handleMinipoolCreated_missing_node:
  assumes "nodes s (toHexString n) = None"
  shows "handleMinipoolCreated e
           (Some \<lparr>created_params = Some \<lparr>param_node = Some n, param_minipool = pm\<rparr>\<rparr>) s
         = (s, None)"
  using assms
  by (simp add: handleMinipoolCreated_def Node_load_def split: option.splits)

theorem handleMinipoolCreated_missing_node_witness:
  "nodes exStore (toHexString ''0xm'') = None
     \<and> handleMinipoolCreated exEnv
         (Some \<lparr>created_params = Some \<lparr>param_node = Some ''0xm'', param_minipool = Some ''0xd''\<rparr>\<rparr>)
         exStore
       = (exStore, None)"
  using handleMinipoolCreated_missing_node [of exStore "''0xm''" exEnv "Some ''0xd''"]
  by (simp add: exStore_def toHexString_def)

text \<open>
  C3. A creation event delivered when a minipool is already stored at its address is a
  no-op: the handler returns the store unchanged and no error, so the minipool stored at
  that address is still the one that was there, and a node list that held the id exactly
  once still holds it exactly once.
\<close>

theorem handleMinipoolCreated_duplicate:
  assumes "minipools s (toHexString m) = Some mp"
  shows "\<exists>s'. handleMinipoolCreated e
                (Some \<lparr>created_params = Some \<lparr>param_node = pn, param_minipool = Some m\<rparr>\<rparr>) s
              = (s', None)
           \<and> s' = s
           \<and> minipools s' (toHexString m) = Some mp
           \<and> (\<forall>k nd ids. nodes s k = Some nd \<longrightarrow> minipoolIds nd = Some ids
                 \<longrightarrow> count_list ids (toHexString m) = 1
                 \<longrightarrow> (\<exists>nd' ids'. nodes s' k = Some nd' \<and> minipoolIds nd' = Some ids'
                        \<and> count_list ids' (toHexString m) = 1))"
  using assms
  by (simp add: handleMinipoolCreated_def Minipool_load_def split: option.splits)

theorem handleMinipoolCreated_duplicate_witness:
  "minipools exStore (toHexString ''0xa'') = Some exA
     \<and> handleMinipoolCreated exEnv
         (Some \<lparr>created_params = Some \<lparr>param_node = Some ''0xn'', param_minipool = Some ''0xa''\<rparr>\<rparr>)
         exStore
       = (exStore, None)
     \<and> (\<exists>nd' ids'. nodes exStore ''0xn'' = Some nd' \<and> minipoolIds nd' = Some ids'
           \<and> count_list ids' (toHexString ''0xa'') = 1)"
proof -
  have h1: "minipools exStore (toHexString ''0xa'') = Some exA"
    by (simp add: exStore_def toHexString_def)
  have h2: "nodes exStore ''0xn'' = Some exNode"
    "minipoolIds exNode = Some [''0xa'', ''0xb'', ''0xc'']"
    "count_list [''0xa'', ''0xb'', ''0xc''] (toHexString ''0xa'') = 1"
    by (simp_all add: exStore_def exNode_def toHexString_def)
  from handleMinipoolCreated_duplicate [OF h1, of exEnv "Some ''0xn''"]
  show ?thesis
    using h1 h2 by blast
qed

text \<open>
  The first delivery, when it completes, is what puts the store in that state: the new
  minipool is stored at the address and the node's list holds its id exactly once, also
  when the list was null or held the id already.
\<close>

lemma count_appendedIds:
  assumes "case ids of None \<Rightarrow> True | Some xs \<Rightarrow> count_list xs k \<le> 1"
  shows "count_list (appendedIds ids k) k = 1"
proof (cases ids)
  case None
  then show ?thesis by (simp add: appendedIds_def)
next
  case (Some xs)
  show ?thesis
  proof (cases "k \<in> set xs")
    case True
    then have "count_list xs k \<noteq> 0"
      by (simp add: count_list_0_iff)
    then show ?thesis
      using assms Some True by (simp add: appendedIds_def)
  next
    case False
    then have "count_list xs k = 0"
      by (simp add: count_list_0_iff)
    then show ?thesis
      using Some False by (simp add: appendedIds_def)
  qed
qed

lemma handleMinipoolCreated_first_delivery:
  assumes "minipools s (toHexString m) = None"
    and "nodes s (toHexString n) = Some nd"
    and "node_id nd = toHexString n"
    and "getNewMinipoolFee e = Inr f"
    and "createMinipool e (toHexString m) nd f = Some mp"
    and "mp_id mp = toHexString m"
    and "\<not> refreshAborts e (toHexString n)"
    and "case minipoolIds nd of None \<Rightarrow> True | Some xs \<Rightarrow> count_list xs (toHexString m) \<le> 1"
  shows "\<exists>s' nd' ids'. handleMinipoolCreated e
             (Some \<lparr>created_params = Some \<lparr>param_node = Some n, param_minipool = Some m\<rparr>\<rparr>) s
           = (s', None)
         \<and> minipools s' (toHexString m) = Some mp
         \<and> nodes s' (toHexString n) = Some nd'
         \<and> minipoolIds nd' = Some ids'
         \<and> count_list ids' (toHexString m) = 1
         \<and> templates s' = templates s @ [toHexString m]"
proof -
  let ?ids = "appendedIds (minipoolIds nd) (toHexString m)"
  let ?n1 = "nd\<lparr>minipoolIds := Some ?ids\<rparr>"
  have "\<not> refreshAborts e (node_id ?n1)"
    using assms(3,7) by simp
  then obtain n2 where n2: "setEffectiveRPLStaked e ?n1 = Inr n2"
    using refresh_completes by blast
  note fr = refresh_frame [OF n2]
  have loads: "createdLoads e
      (Some \<lparr>created_params = Some \<lparr>param_node = Some n, param_minipool = Some m\<rparr>\<rparr>) s
      = Some (Inr (mp, nd))"
    using assms(1,2,4,5) by (simp add: createdLoads_def Minipool_load_def Node_load_def)
  have c: "count_list ?ids (toHexString m) = 1"
    using count_appendedIds [OF assms(8)] by simp
  show ?thesis
    using assms(3) fr c
    by (simp add: created_by_loads loads assms(6) n2 rocketMinipoolDelegate_create_def
        Node_save_def Minipool_save_def recomputed_fields Address_fromString_def)
qed

section \<open>The finalization handler\<close>

lemma finalisation_unfold:
  assumes "minipools s (toHexString a) = Some mp"
    and "mp_node mp = Some k"
    and "nodes s k = Some nd"
  shows "handleIncrementNodeFinalisedMinipoolCount e
           (Some \<lparr>call_block = Some blk, call_from = Some a\<rparr>) s =
         (case setEffectiveRPLStaked e (finalisedCounters nd) of
            Inl err \<Rightarrow> (Minipool_save (mp\<lparr>finalizedBlockTime := timestamp blk\<rparr>) s, Some err)
          | Inr nd' \<Rightarrow>
              (Node_save
                 (recomputed (Minipool_save (mp\<lparr>finalizedBlockTime := timestamp blk\<rparr>) s)
                    (minipoolIds nd) nd')
                 (Minipool_save (mp\<lparr>finalizedBlockTime := timestamp blk\<rparr>) s), None))"
  unfolding handleIncrementNodeFinalisedMinipoolCount_def finalisedCounters_def recomputed_def
    Minipool_load_def Node_load_def Let_def
  using assms by simp

lemma finalisation_node:
  assumes "minipools s (toHexString a) = Some mp"
    and "mp_node mp = Some k"
    and "nodes s k = Some nd"
    and "node_id nd = k"
    and "\<not> refreshAborts e k"
  shows "\<exists>s' nd'. handleIncrementNodeFinalisedMinipoolCount e
                    (Some \<lparr>call_block = Some blk, call_from = Some a\<rparr>) s = (s', None)
           \<and> nodes s' k = Some nd'
           \<and> totalFinalizedMinipools nd' = totalFinalizedMinipools nd + 1
           \<and> withdrawableMinipools nd' = max 0 (totalFinalizedMinipools nd)"
proof -
  have "\<not> refreshAborts e (node_id (finalisedCounters nd))"
    using assms by (simp add: finalisedCounters_fields)
  then obtain n4 where n4: "setEffectiveRPLStaked e (finalisedCounters nd) = Inr n4"
    using refresh_completes by blast
  note fr = refresh_frame [OF n4]
  show ?thesis
    using assms(4) fr
    by (simp add: finalisation_unfold [OF assms(1-3)] n4 Node_save_def Minipool_save_def
        recomputed_fields finalisedCounters_fields)
qed

text \<open>
  C5. A finalization call whose minipool names a node, with that node in the store (under
  its id) and a stake refresh that does not abort, completes and leaves the node saved with
  \<^verbatim>\<open>totalFinalizedMinipools\<close> one above its old value and \<^verbatim>\<open>withdrawableMinipools\<close>
  equal to the new total minus one, or zero when that is negative.
\<close>

theorem finalisation_increments_and_clamps:
  assumes "minipools s (toHexString a) = Some mp"
    and "mp_node mp = Some k"
    and "nodes s k = Some nd"
    and "node_id nd = k"
    and "\<not> refreshAborts e k"
  shows "\<exists>s' nd'. handleIncrementNodeFinalisedMinipoolCount e
                    (Some \<lparr>call_block = Some blk, call_from = Some a\<rparr>) s = (s', None)
           \<and> nodes s' k = Some nd'
           \<and> totalFinalizedMinipools nd' = totalFinalizedMinipools nd + 1
           \<and> withdrawableMinipools nd' = max 0 (totalFinalizedMinipools nd' - 1)"
proof -
  from finalisation_node [OF assms, of blk] obtain s' nd' where
    "handleIncrementNodeFinalisedMinipoolCount e
       (Some \<lparr>call_block = Some blk, call_from = Some a\<rparr>) s = (s', None)"
    "nodes s' k = Some nd'"
    "totalFinalizedMinipools nd' = totalFinalizedMinipools nd + 1"
    "withdrawableMinipools nd' = max 0 (totalFinalizedMinipools nd)"
    by blast
  then show ?thesis by simp
qed

theorem finalisation_increments_and_clamps_witness:
  "\<exists>s' nd'. handleIncrementNodeFinalisedMinipoolCount exEnv
              (Some \<lparr>call_block = Some \<lparr>timestamp = 1700\<rparr>, call_from = Some ''0xa''\<rparr>) exStore
            = (s', None)
     \<and> nodes s' ''0xn'' = Some nd'
     \<and> totalFinalizedMinipools nd' = 1
     \<and> withdrawableMinipools nd' = 0"
proof -
  have h1: "minipools exStore (toHexString ''0xa'') = Some exA"
    by (simp add: exStore_def toHexString_def)
  have h2: "mp_node exA = Some ''0xn''"
    by (simp add: exA_def)
  have h3: "nodes exStore ''0xn'' = Some exNode"
    by (simp add: exStore_def)
  have h4: "node_id exNode = ''0xn''"
    by (simp add: exNode_def)
  from finalisation_increments_and_clamps [OF h1 h2 h3 h4 exEnv_completes, of "\<lparr>timestamp = 1700\<rparr>"]
  obtain s' nd' where r:
    "handleIncrementNodeFinalisedMinipoolCount exEnv
       (Some \<lparr>call_block = Some \<lparr>timestamp = 1700\<rparr>, call_from = Some ''0xa''\<rparr>) exStore
     = (s', None)"
    "nodes s' ''0xn'' = Some nd'"
    "totalFinalizedMinipools nd' = totalFinalizedMinipools exNode + 1"
    "withdrawableMinipools nd' = max 0 (totalFinalizedMinipools nd' - 1)"
    by blast
  have "totalFinalizedMinipools nd' = 1" "withdrawableMinipools nd' = 0"
    using r(3,4) by (simp_all add: exNode_def)
  with r(1,2) show ?thesis by blast
qed



section \<open>The destruction handler\<close>

lemma destruction_unfold:
  assumes "minipools s (toHexString m) = Some mp"
    and "nodes s (toHexString n) = Some nd"
  shows "handleMinipoolDestroyed e
           (Some \<lparr>destroyed_params = Some \<lparr>param_node = Some n, param_minipool = Some m\<rparr>,
                  destroyed_block = Some blk\<rparr>) s =
         (case setEffectiveRPLStaked e nd of
            Inl err \<Rightarrow> (Minipool_save (mp\<lparr>destroyedBlockTime := timestamp blk\<rparr>) s, Some err)
          | Inr nd' \<Rightarrow>
              (Node_save
                 (recomputed (Minipool_save (mp\<lparr>destroyedBlockTime := timestamp blk\<rparr>) s)
                    (minipoolIds nd) nd')
                 (Minipool_save (mp\<lparr>destroyedBlockTime := timestamp blk\<rparr>) s), None))"
  unfolding handleMinipoolDestroyed_def recomputed_def Minipool_load_def Node_load_def Let_def
  using assms by simp








section \<open>The minipool outside its block times\<close>

lemma destroyed_minipools:
  "minipools (fst (handleMinipoolDestroyed e ev s)) =
     (case destroyedLoads ev s of
        None \<Rightarrow> minipools s
      | Some (mp, nd, t) \<Rightarrow> (minipools s)(mp_id mp \<mapsto> mp\<lparr>destroyedBlockTime := t\<rparr>))"
  by (simp add: destroyed_by_loads Node_save_def Minipool_save_def
      split: option.splits sum.splits)

lemma finalised_minipools:
  "minipools (fst (handleIncrementNodeFinalisedMinipoolCount e c s)) =
     (case finalisedLoads c s of
        None \<Rightarrow> minipools s
      | Some (mp, nd, t) \<Rightarrow> (minipools s)(mp_id mp \<mapsto> mp\<lparr>finalizedBlockTime := t\<rparr>))"
  by (simp add: finalised_by_loads Node_save_def Minipool_save_def
      split: option.splits sum.splits)

text \<open>
  C8. In a store that keeps each minipool under its id, whatever the destruction handler
  is given, a stored minipool is still stored afterwards with the same fee, the same node
  link, the same id and the same \<^verbatim>\<open>finalizedBlockTime\<close>: only \<^verbatim>\<open>destroyedBlockTime\<close>
  can differ. The same holds of the finalization handler with the two block times
  exchanged.
\<close>

theorem destruction_finalisation_frame:
  assumes "keyedMinipools s"
    and "minipools s k = Some mp"
  shows "(\<exists>mp'. minipools (fst (handleMinipoolDestroyed e ev s)) k = Some mp'
            \<and> fee mp' = fee mp \<and> mp_node mp' = mp_node mp
            \<and> mp' = mp\<lparr>destroyedBlockTime := destroyedBlockTime mp'\<rparr>)
       \<and> (\<exists>mp'. minipools (fst (handleIncrementNodeFinalisedMinipoolCount e' c s)) k = Some mp'
            \<and> fee mp' = fee mp \<and> mp_node mp' = mp_node mp
            \<and> mp' = mp\<lparr>finalizedBlockTime := finalizedBlockTime mp'\<rparr>)"
proof
  show "\<exists>mp'. minipools (fst (handleMinipoolDestroyed e ev s)) k = Some mp'
          \<and> fee mp' = fee mp \<and> mp_node mp' = mp_node mp
          \<and> mp' = mp\<lparr>destroyedBlockTime := destroyedBlockTime mp'\<rparr>"
  proof (cases "destroyedLoads ev s")
    case None
    then show ?thesis
      using assms(2) by (simp add: destroyed_minipools)
  next
    case (Some r)
    obtain mp0 nd t where r: "r = (mp0, nd, t)"
      by (cases r) auto
    from destroyedLoads_entities [of ev s mp0 nd t] Some r
    obtain k0 where "minipools s k0 = Some mp0" by auto
    then have k0: "mp_id mp0 = k0"
      using assms(1) by (simp add: keyedMinipools_def)
    show ?thesis
    proof (cases "k = k0")
      case True
      then have "mp0 = mp"
        using \<open>minipools s k0 = Some mp0\<close> assms(2) by simp
      then show ?thesis
        using Some r k0 True by (simp add: destroyed_minipools)
    next
      case False
      then show ?thesis
        using Some r k0 assms(2) by (simp add: destroyed_minipools)
    qed
  qed
next
  show "\<exists>mp'. minipools (fst (handleIncrementNodeFinalisedMinipoolCount e' c s)) k = Some mp'
          \<and> fee mp' = fee mp \<and> mp_node mp' = mp_node mp
          \<and> mp' = mp\<lparr>finalizedBlockTime := finalizedBlockTime mp'\<rparr>"
  proof (cases "finalisedLoads c s")
    case None
    then show ?thesis
      using assms(2) by (simp add: finalised_minipools)
  next
    case (Some r)
    obtain mp0 nd t where r: "r = (mp0, nd, t)"
      by (cases r) auto
    from finalisedLoads_entities [of c s mp0 nd t] Some r
    obtain k0 where "minipools s k0 = Some mp0" by auto
    then have k0: "mp_id mp0 = k0"
      using assms(1) by (simp add: keyedMinipools_def)
    show ?thesis
    proof (cases "k = k0")
      case True
      then have "mp0 = mp"
        using \<open>minipools s k0 = Some mp0\<close> assms(2) by simp
      then show ?thesis
        using Some r k0 True by (simp add: finalised_minipools)
    next
      case False
      then show ?thesis
        using Some r k0 assms(2) by (simp add: finalised_minipools)
    qed
  qed
qed

lemma exStore_keyedMinipools: "keyedMinipools exStore"
  by (simp add: keyedMinipools_def exStore_def exA_def exB_def exC_def)

theorem destruction_finalisation_frame_witness:
  "keyedMinipools exStore \<and> minipools exStore ''0xc'' = Some exC
   \<and> (\<exists>mp'. minipools (fst (handleMinipoolDestroyed exEnv
                 (Some \<lparr>destroyed_params =
                          Some \<lparr>param_node = Some ''0xn'', param_minipool = Some ''0xc''\<rparr>,
                        destroyed_block = Some \<lparr>timestamp = 1700\<rparr>\<rparr>) exStore)) ''0xc'' = Some mp'
          \<and> fee mp' = 31 \<and> mp_node mp' = Some ''0xn'')
   \<and> (\<exists>mp'. minipools (fst (handleIncrementNodeFinalisedMinipoolCount exEnv
                 (Some \<lparr>call_block = Some \<lparr>timestamp = 1800\<rparr>, call_from = Some ''0xc''\<rparr>)
                 exStore)) ''0xc'' = Some mp'
          \<and> fee mp' = 31 \<and> mp_node mp' = Some ''0xn'')"
proof -
  have h2: "minipools exStore ''0xc'' = Some exC"
    by (simp add: exStore_def)
  have f: "fee exC = 31" "mp_node exC = Some ''0xn''"
    by (simp_all add: exC_def)
  from destruction_finalisation_frame [OF exStore_keyedMinipools h2]
  show ?thesis
    using exStore_keyedMinipools h2 unfolding f by blast
qed

section \<open>The withdrawable count over sequences of invocations\<close>

lemma Minipool_save_nodes: "nodes (Minipool_save m s) = nodes s"
  by (simp add: Minipool_save_def)

lemma create_nodes: "nodes (rocketMinipoolDelegate_create a s) = nodes s"
  by (simp add: rocketMinipoolDelegate_create_def)

lemma nodeOk_nodes: "nodes s' = nodes s \<Longrightarrow> nodeOk k s' = nodeOk k s"
  by (simp add: nodeOk_def)

lemma keyedNodes_nodes: "nodes s' = nodes s \<Longrightarrow> keyedNodes s' = keyedNodes s"
  by (simp add: keyedNodes_def)

lemma node_saved_inv:
  assumes "keyedNodes s" and "nodeOk k s"
    and "nodes s j = Some nd0"
    and "setEffectiveRPLStaked e nd1 = Inr nd'"
    and "node_id nd1 = node_id nd0"
    and "withdrawableMinipools nd1 = withdrawableMinipools nd0 \<or> 0 \<le> withdrawableMinipools nd1"
  shows "keyedNodes (Node_save (recomputed s1 ids nd') (Minipool_save mp s))
       \<and> nodeOk k (Node_save (recomputed s1 ids nd') (Minipool_save mp s))"
proof -
  note fr = refresh_frame [OF assms(4)]
  have j: "node_id nd0 = j"
    using assms(1,3) by (simp add: keyedNodes_def)
  let ?nd = "recomputed s1 ids nd'"
  have id: "node_id ?nd = j"
    using fr assms(5) j by (simp add: recomputed_fields)
  have w: "withdrawableMinipools ?nd = withdrawableMinipools nd0 \<or> 0 \<le> withdrawableMinipools ?nd"
    using fr assms(6) by (simp add: recomputed_fields)
  have nodes: "nodes (Node_save ?nd (Minipool_save mp s)) = (nodes s)(j \<mapsto> ?nd)"
    using id by (simp add: Node_save_def Minipool_save_def)
  have "keyedNodes (Node_save ?nd (Minipool_save mp s))"
    using assms(1) id unfolding keyedNodes_def nodes by simp
  moreover have "nodeOk k (Node_save ?nd (Minipool_save mp s))"
  proof (cases "k = j")
    case True
    then have "0 \<le> withdrawableMinipools nd0"
      using assms(2,3) by (simp add: nodeOk_def)
    then show ?thesis
      using True w unfolding nodeOk_def nodes by auto
  next
    case False
    then show ?thesis
      using assms(2) unfolding nodeOk_def nodes by simp
  qed
  ultimately show ?thesis by simp
qed

lemma created_inv:
  assumes "keyedNodes s" and "nodeOk k s"
  shows "keyedNodes (fst (handleMinipoolCreated e ev s))
       \<and> nodeOk k (fst (handleMinipoolCreated e ev s))"
proof (cases "createdLoads e ev s")
  case None
  then show ?thesis using assms by (simp add: created_by_loads)
next
  case (Some r)
  show ?thesis
  proof (cases r)
    case (Inl err)
    then show ?thesis using Some assms by (simp add: created_by_loads)
  next
    case (Inr p)
    obtain mp nd where p: "p = (mp, nd)" by (cases p) auto
    from createdLoads_node [of e ev s mp nd] Some Inr p
    obtain j where j: "nodes s j = Some nd" by auto
    let ?n1 = "nd\<lparr>minipoolIds := Some (appendedIds (minipoolIds nd) (mp_id mp))\<rparr>"
    show ?thesis
    proof (cases "setEffectiveRPLStaked e ?n1")
      case (Inl err)
      then show ?thesis
        using Some Inr p assms
        by (simp add: created_by_loads nodeOk_nodes [OF Minipool_save_nodes]
            keyedNodes_nodes [OF Minipool_save_nodes])
    next
      case n': (Inr nd')
      have "node_id ?n1 = node_id nd"
        "withdrawableMinipools ?n1 = withdrawableMinipools nd \<or> 0 \<le> withdrawableMinipools ?n1"
        by simp_all
      from node_saved_inv [OF assms j n' this]
      show ?thesis
        using Some Inr p n'
        by (simp add: created_by_loads nodeOk_nodes [OF create_nodes]
            keyedNodes_nodes [OF create_nodes])
    qed
  qed
qed

lemma destroyed_inv:
  assumes "keyedNodes s" and "nodeOk k s"
  shows "keyedNodes (fst (handleMinipoolDestroyed e ev s))
       \<and> nodeOk k (fst (handleMinipoolDestroyed e ev s))"
proof (cases "destroyedLoads ev s")
  case None
  then show ?thesis using assms by (simp add: destroyed_by_loads)
next
  case (Some r)
  obtain mp nd t where r: "r = (mp, nd, t)" by (cases r) auto
  from destroyedLoads_entities [of ev s mp nd t] Some r
  obtain j where j: "nodes s j = Some nd" by auto
  show ?thesis
  proof (cases "setEffectiveRPLStaked e nd")
    case (Inl err)
    then show ?thesis
      using Some r assms
      by (simp add: destroyed_by_loads nodeOk_nodes [OF Minipool_save_nodes]
          keyedNodes_nodes [OF Minipool_save_nodes])
  next
    case n': (Inr nd')
    have "node_id nd = node_id nd"
      "withdrawableMinipools nd = withdrawableMinipools nd \<or> 0 \<le> withdrawableMinipools nd"
      by simp_all
    from node_saved_inv [OF assms j n' this]
    show ?thesis
      using Some r n' by (simp add: destroyed_by_loads)
  qed
qed

lemma finalised_inv:
  assumes "keyedNodes s" and "nodeOk k s"
  shows "keyedNodes (fst (handleIncrementNodeFinalisedMinipoolCount e c s))
       \<and> nodeOk k (fst (handleIncrementNodeFinalisedMinipoolCount e c s))"
proof (cases "finalisedLoads c s")
  case None
  then show ?thesis using assms by (simp add: finalised_by_loads)
next
  case (Some r)
  obtain mp nd t where r: "r = (mp, nd, t)" by (cases r) auto
  from finalisedLoads_entities [of c s mp nd t] Some r
  obtain j where j: "nodes s j = Some nd" by auto
  show ?thesis
  proof (cases "setEffectiveRPLStaked e (finalisedCounters nd)")
    case (Inl err)
    then show ?thesis
      using Some r assms
      by (simp add: finalised_by_loads nodeOk_nodes [OF Minipool_save_nodes]
          keyedNodes_nodes [OF Minipool_save_nodes])
  next
    case n': (Inr nd')
    have "node_id (finalisedCounters nd) = node_id nd"
      "withdrawableMinipools (finalisedCounters nd) = withdrawableMinipools nd
         \<or> 0 \<le> withdrawableMinipools (finalisedCounters nd)"
      by (simp_all add: finalisedCounters_fields)
    from node_saved_inv [OF assms j n' this]
    show ?thesis
      using Some r n' by (simp add: finalised_by_loads)
  qed
qed

lemma dispatch_inv:
  assumes "keyedNodes s" and "nodeOk k s"
  shows "keyedNodes (fst (dispatch i s)) \<and> nodeOk k (fst (dispatch i s))"
  using assms by (cases i) (simp_all add: created_inv destroyed_inv finalised_inv)

lemma run_inv:
  "keyedNodes s \<Longrightarrow> nodeOk k s \<Longrightarrow> keyedNodes (run invs s) \<and> nodeOk k (run invs s)"
proof (induction invs arbitrary: s)
  case Nil
  then show ?case by simp
next
  case (Cons i rest)
  from dispatch_inv [OF Cons.prems, of i]
  show ?case using Cons.IH by simp
qed

text \<open>
  C6. In a store that keeps each node under its id, a node whose
  \<^verbatim>\<open>withdrawableMinipools\<close> is not negative is, after any sequence of invocations of the
  three handlers, in any order and on any chain states, aborted ones included, still stored
  with a \<^verbatim>\<open>withdrawableMinipools\<close> that is not negative.
\<close>

theorem withdrawable_never_negative:
  assumes "keyedNodes s"
    and "nodes s k = Some nd"
    and "0 \<le> withdrawableMinipools nd"
  shows "\<exists>nd'. nodes (run invs s) k = Some nd' \<and> 0 \<le> withdrawableMinipools nd'"
proof -
  have "nodeOk k s"
    using assms(2,3) by (simp add: nodeOk_def)
  from run_inv [OF assms(1) this, of invs]
  show ?thesis
    by (auto simp add: nodeOk_def split: option.splits)
qed


lemma exStore_keyedNodes: "keyedNodes exStore"
  by (simp add: keyedNodes_def exStore_def exNode_def)

theorem withdrawable_never_negative_witness:
  "keyedNodes exStore \<and> nodes exStore ''0xn'' = Some exNode
   \<and> 0 \<le> withdrawableMinipools exNode
   \<and> (\<exists>nd'. nodes (run exInvocations exStore) ''0xn'' = Some nd'
          \<and> 0 \<le> withdrawableMinipools nd')"
proof -
  have h2: "nodes exStore ''0xn'' = Some exNode"
    by (simp add: exStore_def)
  have h3: "0 \<le> withdrawableMinipools exNode"
    by (simp add: exNode_def)
  from withdrawable_never_negative [OF exStore_keyedNodes h2 h3, of exInvocations]
  show ?thesis
    using exStore_keyedNodes h2 h3 by blast
qed

section \<open>The stake refresh as a snapshot\<close>

lemma refresh_overwrites:
  assumes "stakeReads e (node_id nd) = Some (Inr (v1, v2, v3))"
  shows "setEffectiveRPLStaked e nd =
           Inr (nd\<lparr>effectiveRPLStaked := v1, minimumEffectiveRPL := v2, maximumEffectiveRPL := v3\<rparr>)"
  using assms by (simp add: setEffectiveRPLStaked_reads)

lemma refreshAll_append:
  "refreshAll (xs @ ys) nd =
     (case refreshAll xs nd of Inl err \<Rightarrow> Inl err | Inr nd' \<Rightarrow> refreshAll ys nd')"
  by (induction xs arbitrary: nd) (simp_all split: sum.splits)

lemma refreshAll_no_read:
  "\<forall>e' \<in> set es. stakeReads e' (node_id nd) = None \<Longrightarrow> refreshAll es nd = Inr nd"
  by (induction es) (simp_all add: setEffectiveRPLStaked_reads)

lemma refreshAll_stake_fields:
  "\<forall>e' \<in> set es. \<not> refreshAborts e' (node_id nd) \<Longrightarrow>
     \<exists>a b c. refreshAll es nd =
       Inr (nd\<lparr>effectiveRPLStaked := a, minimumEffectiveRPL := b, maximumEffectiveRPL := c\<rparr>)"
proof (induction es arbitrary: nd)
  case Nil
  have "nd = nd\<lparr>effectiveRPLStaked := effectiveRPLStaked nd,
                 minimumEffectiveRPL := minimumEffectiveRPL nd,
                 maximumEffectiveRPL := maximumEffectiveRPL nd\<rparr>"
    by simp
  then show ?case
    by (metis refreshAll.simps(1))
next
  case (Cons e0 es)
  have ok: "\<not> refreshAborts e0 (node_id nd)"
    using Cons.prems by simp
  then obtain n1 where n1: "setEffectiveRPLStaked e0 nd = Inr n1"
    using refresh_completes by blast
  have shape: "\<exists>a b c. n1 = nd\<lparr>effectiveRPLStaked := a, minimumEffectiveRPL := b,
                                  maximumEffectiveRPL := c\<rparr>"
  proof (cases "stakeReads e0 (node_id nd)")
    case None
    then have "n1 = nd"
      using n1 by (simp add: setEffectiveRPLStaked_reads)
    then have "n1 = nd\<lparr>effectiveRPLStaked := effectiveRPLStaked nd,
                         minimumEffectiveRPL := minimumEffectiveRPL nd,
                         maximumEffectiveRPL := maximumEffectiveRPL nd\<rparr>"
      by simp
    then show ?thesis by blast
  next
    case (Some r)
    then show ?thesis
      using n1 ok
      by (cases r) (auto simp add: setEffectiveRPLStaked_reads refreshAborts_def)
  qed
  then obtain a b c where
    n1_eq: "n1 = nd\<lparr>effectiveRPLStaked := a, minimumEffectiveRPL := b, maximumEffectiveRPL := c\<rparr>"
    by blast
  have "node_id n1 = node_id nd"
    using n1_eq by simp
  then have "\<forall>e' \<in> set es. \<not> refreshAborts e' (node_id n1)"
    using Cons.prems by simp
  from Cons.IH [OF this] obtain a' b' c' where
    "refreshAll es n1 =
       Inr (n1\<lparr>effectiveRPLStaked := a', minimumEffectiveRPL := b', maximumEffectiveRPL := c'\<rparr>)"
    by blast
  then have "refreshAll (e0 # es) nd =
       Inr (nd\<lparr>effectiveRPLStaked := a', minimumEffectiveRPL := b', maximumEffectiveRPL := c'\<rparr>)"
    using n1 n1_eq by simp
  then show ?case by blast
qed

text \<open>
  C9. When the staking contract returns its three values for the node's address, the
  refresh gives the node with \<^verbatim>\<open>effectiveRPLStaked\<close>, \<^verbatim>\<open>minimumEffectiveRPL\<close> and
  \<^verbatim>\<open>maximumEffectiveRPL\<close> set to these values, whatever the three fields held before and
  with nothing else changed. So after any sequence of refreshes none of which aborts, the
  node is the one it was at the start with the three fields equal to the values of the last
  refresh that read them (the refreshes after it, if any, found a null binding and read
  nothing): nothing of the earlier reads is left in them.
\<close>

theorem stake_refresh_latest_read:
  assumes "\<forall>e' \<in> set earlier. \<not> refreshAborts e' (node_id nd)"
    and "stakeReads e (node_id nd) = Some (Inr (v1, v2, v3))"
    and "\<forall>e' \<in> set later. stakeReads e' (node_id nd) = None"
  shows "setEffectiveRPLStaked e nd =
           Inr (nd\<lparr>effectiveRPLStaked := v1, minimumEffectiveRPL := v2, maximumEffectiveRPL := v3\<rparr>)
       \<and> refreshAll (earlier @ [e] @ later) nd =
           Inr (nd\<lparr>effectiveRPLStaked := v1, minimumEffectiveRPL := v2, maximumEffectiveRPL := v3\<rparr>)"
proof -
  let ?res = "nd\<lparr>effectiveRPLStaked := v1, minimumEffectiveRPL := v2, maximumEffectiveRPL := v3\<rparr>"
  from refreshAll_stake_fields [OF assms(1)] obtain a b c where
    first: "refreshAll earlier nd =
       Inr (nd\<lparr>effectiveRPLStaked := a, minimumEffectiveRPL := b, maximumEffectiveRPL := c\<rparr>)"
    by blast
  let ?n1 = "nd\<lparr>effectiveRPLStaked := a, minimumEffectiveRPL := b, maximumEffectiveRPL := c\<rparr>"
  have "stakeReads e (node_id ?n1) = Some (Inr (v1, v2, v3))"
    using assms(2) by simp
  from refresh_overwrites [OF this]
  have mid: "setEffectiveRPLStaked e ?n1 = Inr ?res"
    by simp
  have "\<forall>e' \<in> set later. stakeReads e' (node_id ?res) = None"
    using assms(3) by simp
  from refreshAll_no_read [OF this]
  have last: "refreshAll later ?res = Inr ?res" .
  have "refreshAll (earlier @ [e] @ later) nd = Inr ?res"
    by (simp add: refreshAll_append first mid last)
  then show ?thesis
    using refresh_overwrites [OF assms(2)] by simp
qed


theorem stake_refresh_latest_read_witness:
  "stakeReads exEarlierEnv (node_id exNode) = Some (Inr (7, 8, 9))
   \<and> stakeReads exEnv (node_id exNode) = Some (Inr (100, 50, 150))
   \<and> stakeReads exNullStakingEnv (node_id exNode) = None
   \<and> refreshAll [exEarlierEnv, exEnv, exNullStakingEnv] exNode =
       Inr (exNode\<lparr>effectiveRPLStaked := 100, minimumEffectiveRPL := 50,
                    maximumEffectiveRPL := 150\<rparr>)"
proof -
  have h0: "stakeReads exEarlierEnv (node_id exNode) = Some (Inr (7, 8, 9))"
    by (simp add: stakeReads_def exEarlierEnv_def exEnv_def)
  have h1: "\<forall>e' \<in> set [exEarlierEnv]. \<not> refreshAborts e' (node_id exNode)"
    using h0 by (simp add: refreshAborts_def)
  have h2: "stakeReads exEnv (node_id exNode) = Some (Inr (100, 50, 150))"
    by (simp add: stakeReads_def exEnv_def exStaking_def)
  have h3: "stakeReads exNullStakingEnv (node_id exNode) = None"
    by (simp add: stakeReads_def exNullStakingEnv_def exEnv_def)
  then have h3': "\<forall>e' \<in> set [exNullStakingEnv]. stakeReads e' (node_id exNode) = None"
    by simp
  from stake_refresh_latest_read [OF h1 h2 h3']
  show ?thesis
    using h0 h2 h3 by simp
qed

section \<open>A contract read that reverts\<close>

lemma refresh_reverts:
  assumes "stakeReads e (node_id nd) = Some (Inl err)"
    and "node_id nd1 = node_id nd"
  shows "setEffectiveRPLStaked e nd1 = Inl err"
  using assms by (simp add: setEffectiveRPLStaked_reads)

lemma created_fee_reverts:
  assumes "minipools s (toHexString m) = None"
    and "nodes s (toHexString n) = Some nd"
    and "rocketNetworkFees_bind e = Some c"
    and "getNodeFee c = Inl err"
  shows "handleMinipoolCreated e
           (Some \<lparr>created_params = Some \<lparr>param_node = Some n, param_minipool = Some m\<rparr>\<rparr>) s
         = (s, Some err)"
  using assms
  by (simp add: created_by_loads createdLoads_def Minipool_load_def Node_load_def
      getNewMinipoolFee_def)

lemma created_stake_reverts:
  assumes "minipools s (toHexString m) = None"
    and "nodes s (toHexString n) = Some nd"
    and "getNewMinipoolFee e = Inr f"
    and "createMinipool e (toHexString m) nd f = Some mpNew"
    and "stakeReads e (node_id nd) = Some (Inl err)"
  shows "handleMinipoolCreated e
           (Some \<lparr>created_params = Some \<lparr>param_node = Some n, param_minipool = Some m\<rparr>\<rparr>) s
         = (s\<lparr>minipools := (minipools s)(mp_id mpNew \<mapsto> mpNew)\<rparr>, Some err)"
proof -
  have "setEffectiveRPLStaked e
          (nd\<lparr>minipoolIds := Some (appendedIds (minipoolIds nd) (mp_id mpNew))\<rparr>) = Inl err"
    by (rule refresh_reverts [OF assms(5)]) simp
  then show ?thesis
    using assms(1-4)
    by (simp add: created_by_loads createdLoads_def Minipool_load_def Node_load_def
        Minipool_save_def)
qed

lemma destroyed_stake_reverts:
  assumes "minipools s (toHexString m) = Some mp"
    and "nodes s (toHexString n) = Some nd"
    and "stakeReads e (node_id nd) = Some (Inl err)"
  shows "handleMinipoolDestroyed e
           (Some \<lparr>destroyed_params = Some \<lparr>param_node = Some n, param_minipool = Some m\<rparr>,
                  destroyed_block = Some blk\<rparr>) s
         = (s\<lparr>minipools := (minipools s)(mp_id mp \<mapsto> mp\<lparr>destroyedBlockTime := timestamp blk\<rparr>)\<rparr>,
            Some err)"
proof -
  have "setEffectiveRPLStaked e nd = Inl err"
    by (rule refresh_reverts [OF assms(3)]) simp
  then show ?thesis
    by (simp add: destruction_unfold [OF assms(1,2)] Minipool_save_def)
qed

lemma finalised_stake_reverts:
  assumes "minipools s (toHexString a) = Some mp"
    and "mp_node mp = Some k"
    and "nodes s k = Some nd"
    and "stakeReads e (node_id nd) = Some (Inl err)"
  shows "handleIncrementNodeFinalisedMinipoolCount e
           (Some \<lparr>call_block = Some blk, call_from = Some a\<rparr>) s
         = (s\<lparr>minipools := (minipools s)(mp_id mp \<mapsto> mp\<lparr>finalizedBlockTime := timestamp blk\<rparr>)\<rparr>,
            Some err)"
proof -
  have "setEffectiveRPLStaked e (finalisedCounters nd) = Inl err"
    by (rule refresh_reverts [OF assms(4)]) (simp add: finalisedCounters_fields)
  then show ?thesis
    by (simp add: finalisation_unfold [OF assms(1-3)] Minipool_save_def)
qed

text \<open>
  C2, as the code has it. A read that reverts ends the handler with that error, and the
  store is then as follows. When the fee read of the creation handler reverts, the store is
  unchanged. When one of the three stake reads reverts, in any of the three handlers, the
  nodes and the templates are unchanged, so no stake field and no other node field is saved,
  and the minipools differ in one entry: the minipool of the event, which the handler saved
  before the refresh (the new minipool, or the stored one with its destroyed or finalized
  time set). A null binding is no error: the fee is then zero and the refresh leaves the
  node as it is.
\<close>

theorem read_failure_aborts:
  "(minipools s (toHexString m) = None \<and> nodes s (toHexString n) = Some nd
      \<and> rocketNetworkFees_bind e = Some c \<and> getNodeFee c = Inl err
    \<longrightarrow> handleMinipoolCreated e
          (Some \<lparr>created_params = Some \<lparr>param_node = Some n, param_minipool = Some m\<rparr>\<rparr>) s
        = (s, Some err))
   \<and> (minipools s (toHexString m) = None \<and> nodes s (toHexString n) = Some nd
      \<and> getNewMinipoolFee e = Inr f \<and> createMinipool e (toHexString m) nd f = Some mpNew
      \<and> stakeReads e (node_id nd) = Some (Inl err)
    \<longrightarrow> handleMinipoolCreated e
          (Some \<lparr>created_params = Some \<lparr>param_node = Some n, param_minipool = Some m\<rparr>\<rparr>) s
        = (s\<lparr>minipools := (minipools s)(mp_id mpNew \<mapsto> mpNew)\<rparr>, Some err))
   \<and> (minipools s (toHexString m) = Some mp \<and> nodes s (toHexString n) = Some nd
      \<and> stakeReads e (node_id nd) = Some (Inl err)
    \<longrightarrow> handleMinipoolDestroyed e
          (Some \<lparr>destroyed_params = Some \<lparr>param_node = Some n, param_minipool = Some m\<rparr>,
                 destroyed_block = Some blk\<rparr>) s
        = (s\<lparr>minipools := (minipools s)(mp_id mp \<mapsto> mp\<lparr>destroyedBlockTime := timestamp blk\<rparr>)\<rparr>,
           Some err))
   \<and> (minipools s (toHexString a) = Some mp \<and> mp_node mp = Some k \<and> nodes s k = Some nd
      \<and> stakeReads e (node_id nd) = Some (Inl err)
    \<longrightarrow> handleIncrementNodeFinalisedMinipoolCount e
          (Some \<lparr>call_block = Some blk, call_from = Some a\<rparr>) s
        = (s\<lparr>minipools := (minipools s)(mp_id mp \<mapsto> mp\<lparr>finalizedBlockTime := timestamp blk\<rparr>)\<rparr>,
           Some err))
   \<and> (rocketNetworkFees_bind e = None \<longrightarrow> getNewMinipoolFee e = Inr 0)
   \<and> (rocketNodeStaking_bind e = None \<longrightarrow> setEffectiveRPLStaked e nd = Inr nd)"
  using created_fee_reverts [of s m n nd e c err]
    created_stake_reverts [of s m n nd e f mpNew err]
    destroyed_stake_reverts [of s m mp n nd e err blk]
    finalised_stake_reverts [of s a mp k nd e err blk]
    null_fee_binding [of e] null_staking_binding [of e nd]
  by blast


theorem read_failure_aborts_witness:
  "handleMinipoolCreated exFeeFailingEnv
     (Some \<lparr>created_params = Some \<lparr>param_node = Some ''0xn'', param_minipool = Some ''0xd''\<rparr>\<rparr>)
     exStore
   = (exStore, Some (CallReverted ''getNodeFee''))
   \<and> handleMinipoolCreated exFailingEnv
       (Some \<lparr>created_params = Some \<lparr>param_node = Some ''0xn'', param_minipool = Some ''0xd''\<rparr>\<rparr>)
       exStore
     = (exStore\<lparr>minipools := (minipools exStore)(''0xd'' \<mapsto> exD)\<rparr>,
        Some (CallReverted ''getNodeMinimumRPLStake''))
   \<and> handleMinipoolDestroyed exFailingEnv
       (Some \<lparr>destroyed_params = Some \<lparr>param_node = Some ''0xn'', param_minipool = Some ''0xa''\<rparr>,
              destroyed_block = Some \<lparr>timestamp = 1700\<rparr>\<rparr>) exStore
     = (exStore\<lparr>minipools := (minipools exStore)(''0xa'' \<mapsto> exA\<lparr>destroyedBlockTime := 1700\<rparr>)\<rparr>,
        Some (CallReverted ''getNodeMinimumRPLStake''))
   \<and> handleIncrementNodeFinalisedMinipoolCount exFailingEnv
       (Some \<lparr>call_block = Some \<lparr>timestamp = 1700\<rparr>, call_from = Some ''0xa''\<rparr>) exStore
     = (exStore\<lparr>minipools := (minipools exStore)(''0xa'' \<mapsto> exA\<lparr>finalizedBlockTime := 1700\<rparr>)\<rparr>,
        Some (CallReverted ''getNodeMinimumRPLStake''))
   \<and> getNewMinipoolFee exNullFeeFailingEnv = Inr 0
   \<and> setEffectiveRPLStaked exNullStakingEnv exNode = Inr exNode"
proof -
  have reads: "stakeReads exFailingEnv (node_id exNode)
                 = Some (Inl (CallReverted ''getNodeMinimumRPLStake''))"
    by (simp add: stakeReads_def exFailingEnv_def exEnv_def exStaking_def)
  have a1: "minipools exStore (toHexString ''0xd'') = None
      \<and> nodes exStore (toHexString ''0xn'') = Some exNode
      \<and> rocketNetworkFees_bind exFeeFailingEnv
          = Some \<lparr>getNodeFee = Inl (CallReverted ''getNodeFee'')\<rparr>
      \<and> getNodeFee \<lparr>getNodeFee = Inl (CallReverted ''getNodeFee'')\<rparr>
          = Inl (CallReverted ''getNodeFee'')"
    by (simp add: exStore_def toHexString_def exFeeFailingEnv_def)
  have a2: "minipools exStore (toHexString ''0xd'') = None
      \<and> nodes exStore (toHexString ''0xn'') = Some exNode
      \<and> getNewMinipoolFee exFailingEnv = Inr 15
      \<and> createMinipool exFailingEnv (toHexString ''0xd'') exNode 15 = Some exD
      \<and> stakeReads exFailingEnv (node_id exNode)
          = Some (Inl (CallReverted ''getNodeMinimumRPLStake''))"
    using reads
    by (simp add: exStore_def toHexString_def getNewMinipoolFee_def exFailingEnv_def exEnv_def
        exCreateMinipool_def exD_def exNode_def)
  have a3: "minipools exStore (toHexString ''0xa'') = Some exA
      \<and> nodes exStore (toHexString ''0xn'') = Some exNode
      \<and> stakeReads exFailingEnv (node_id exNode)
          = Some (Inl (CallReverted ''getNodeMinimumRPLStake''))"
    using reads by (simp add: exStore_def toHexString_def)
  have a4: "minipools exStore (toHexString ''0xa'') = Some exA
      \<and> mp_node exA = Some ''0xn''
      \<and> nodes exStore ''0xn'' = Some exNode
      \<and> stakeReads exFailingEnv (node_id exNode)
          = Some (Inl (CallReverted ''getNodeMinimumRPLStake''))"
    using reads by (simp add: exStore_def toHexString_def exA_def)
  note t1 = read_failure_aborts
    [where s = exStore and m = "''0xd''" and n = "''0xn''" and nd = exNode
       and e = exFeeFailingEnv and c = "\<lparr>getNodeFee = Inl (CallReverted ''getNodeFee'')\<rparr>"
       and err = "CallReverted ''getNodeFee''", THEN conjunct1, THEN mp, OF a1]
  note t2 = read_failure_aborts
    [where s = exStore and m = "''0xd''" and n = "''0xn''" and nd = exNode
       and e = exFailingEnv and f = 15 and mpNew = exD
       and err = "CallReverted ''getNodeMinimumRPLStake''",
     THEN conjunct2, THEN conjunct1, THEN mp, OF a2]
  note t3 = read_failure_aborts
    [where s = exStore and m = "''0xa''" and n = "''0xn''" and nd = exNode and mp = exA
       and e = exFailingEnv and err = "CallReverted ''getNodeMinimumRPLStake''"
       and blk = "\<lparr>timestamp = 1700\<rparr>",
     THEN conjunct2, THEN conjunct2, THEN conjunct1, THEN mp, OF a3]
  note t4 = read_failure_aborts
    [where s = exStore and a = "''0xa''" and k = "''0xn''" and nd = exNode and mp = exA
       and e = exFailingEnv and err = "CallReverted ''getNodeMinimumRPLStake''"
       and blk = "\<lparr>timestamp = 1700\<rparr>",
     THEN conjunct2, THEN conjunct2, THEN conjunct2, THEN conjunct1, THEN mp, OF a4]
  have a5: "rocketNetworkFees_bind exNullFeeFailingEnv = None"
    by (simp add: exNullFeeFailingEnv_def)
  have a6: "rocketNodeStaking_bind exNullStakingEnv = None"
    by (simp add: exNullStakingEnv_def)
  note t5 = read_failure_aborts
    [where e = exNullFeeFailingEnv,
     THEN conjunct2, THEN conjunct2, THEN conjunct2, THEN conjunct2, THEN conjunct1,
     THEN mp, OF a5]
  note t6 = read_failure_aborts
    [where e = exNullStakingEnv and nd = exNode,
     THEN conjunct2, THEN conjunct2, THEN conjunct2, THEN conjunct2, THEN conjunct2,
     THEN mp, OF a6]
  have ids: "mp_id exA = ''0xa''" "mp_id exD = ''0xd''"
    by (simp_all add: exA_def exD_def)
  from t1 t2 t3 t4 t5 t6 show ?thesis
    unfolding ids by simp
qed

text \<open>
  C2, as it is stated, fails on two inputs. In the destruction handler the second stake
  read reverts: the handler ends with that error, and the minipool is in the store with its
  destroyed time set all the same, saved before the refresh, while the node is as it was.
  In the creation handler the fee binding is null and the second stake read reverts: the
  handler ends with that error, and a minipool with the fee zero is in the store.
\<close>

theorem stake_read_failure_counterexample:
  "snd (handleMinipoolDestroyed exFailingEnv
          (Some \<lparr>destroyed_params = Some \<lparr>param_node = Some ''0xn'', param_minipool = Some ''0xa''\<rparr>,
                 destroyed_block = Some \<lparr>timestamp = 1700\<rparr>\<rparr>) exStore)
     = Some (CallReverted ''getNodeMinimumRPLStake'')
   \<and> minipools exStore ''0xa'' = Some exA
   \<and> destroyedBlockTime exA = 0
   \<and> minipools (fst (handleMinipoolDestroyed exFailingEnv
          (Some \<lparr>destroyed_params = Some \<lparr>param_node = Some ''0xn'', param_minipool = Some ''0xa''\<rparr>,
                 destroyed_block = Some \<lparr>timestamp = 1700\<rparr>\<rparr>) exStore)) ''0xa''
       = Some (exA\<lparr>destroyedBlockTime := 1700\<rparr>)
   \<and> nodes (fst (handleMinipoolDestroyed exFailingEnv
          (Some \<lparr>destroyed_params = Some \<lparr>param_node = Some ''0xn'', param_minipool = Some ''0xa''\<rparr>,
                 destroyed_block = Some \<lparr>timestamp = 1700\<rparr>\<rparr>) exStore)) ''0xn''
       = Some exNode
   \<and> snd (handleMinipoolCreated exNullFeeFailingEnv
          (Some \<lparr>created_params = Some \<lparr>param_node = Some ''0xn'', param_minipool = Some ''0xd''\<rparr>\<rparr>)
          exStore)
     = Some (CallReverted ''getNodeMinimumRPLStake'')
   \<and> minipools exStore ''0xd'' = None
   \<and> minipools (fst (handleMinipoolCreated exNullFeeFailingEnv
          (Some \<lparr>created_params = Some \<lparr>param_node = Some ''0xn'', param_minipool = Some ''0xd''\<rparr>\<rparr>)
          exStore)) ''0xd''
       = Some (exD\<lparr>fee := 0\<rparr>)"
  by (simp add: handleMinipoolDestroyed_def handleMinipoolCreated_def Minipool_load_def
      Node_load_def toHexString_def getNewMinipoolFee_def setEffectiveRPLStaked_def
      Address_fromString_def Minipool_save_def exNullFeeFailingEnv_def exFailingEnv_def
      exEnv_def exStaking_def exCreateMinipool_def exStore_def exNode_def exA_def exD_def)

end
